theory Spec2Isabelle
  imports Main
begin

section \<open>Frontend locale handling (composables/i18n and locales/index.ts)\<close>

text \<open>
  The i18n composable reads and writes three pieces of ambient browser state: the
  \<^verbatim>\<open>localStorage\<close> of the page, the \<^verbatim>\<open>lang\<close> attribute of the
  \<^verbatim>\<open>html\<close> element, and the reactive \<^verbatim>\<open>i18n.global.locale\<close> ref. A call of
  \<^verbatim>\<open>useLocale()\<close> adds its own \<^verbatim>\<open>currentLocale\<close> ref. All of it is collected in
  one record that the functions take and return.

  \<^item> \<open>navigator_language\<close> is the language the browser reports; the source never reads it.
  \<^item> \<open>localStorage\<close> maps keys to stored strings; \<open>None\<close> is the \<^verbatim>\<open>null\<close> that
    \<^verbatim>\<open>getItem\<close> returns for a missing key.
  \<^item> \<open>html\<close> is the attribute table of the element found by
    \<^verbatim>\<open>document.querySelector('html')\<close>, \<open>None\<close> when there is no such element.

  At run time a value of the TypeScript type \<^verbatim>\<open>Locale\<close> is a string (the cast
  \<^verbatim>\<open>storedLocale as Locale\<close> checks nothing), so locales are strings here and the type
  \<^verbatim>\<open>Locale = 'en'\<close> is the set of strings it admits.
\<close>

record page =
  navigator_language :: string
  localStorage :: "string \<rightharpoonup> string"
  html :: "(string \<rightharpoonup> string) option"
  i18n_locale :: string
  currentLocale :: string

definition Locale :: "string set" where
  "Locale = {''en''}"

definition availableLocales :: "(string \<times> string) list" where
  "availableLocales = [(''English'', ''en'')]"

definition STORAGE_KEY :: string where
  "STORAGE_KEY = ''euraika-locale''"

definition getBrowserLocale :: "page \<Rightarrow> string" where
  "getBrowserLocale p = ''en''"

text \<open>
  \<^verbatim>\<open>(storedLocale as Locale) || getBrowserLocale()\<close>: the left operand is returned unless
  it is falsy, and the falsy values of \<^verbatim>\<open>string | null\<close> are \<^verbatim>\<open>null\<close> and the
  empty string.
\<close>

definition getStoredLocale :: "page \<Rightarrow> string" where
  "getStoredLocale p =
     (case localStorage p STORAGE_KEY of
        None \<Rightarrow> getBrowserLocale p
      | Some storedLocale \<Rightarrow> if storedLocale = [] then getBrowserLocale p else storedLocale)"

text \<open>The body of the closure \<^verbatim>\<open>setLocale\<close>, statement by statement.\<close>

definition setLocale :: "string \<Rightarrow> page \<Rightarrow> page" where
  "setLocale locale p =
     p\<lparr> i18n_locale := locale,
        currentLocale := locale,
        localStorage := (localStorage p)(STORAGE_KEY \<mapsto> locale),
        html := map_option (\<lambda>attrs. attrs(''lang'' \<mapsto> locale)) (html p) \<rparr>"

text \<open>
  \<^verbatim>\<open>watch(currentLocale, (val) => setLocale(val))\<close>: when the ref holds another value
  than before, the callback runs once with the new value.
\<close>

definition watch_currentLocale :: "page \<Rightarrow> page \<Rightarrow> page" where
  "watch_currentLocale before p =
     (if currentLocale p \<noteq> currentLocale before then setLocale (currentLocale p) p else p)"

text \<open>What a component observes after calling the \<^verbatim>\<open>setLocale\<close> that \<^verbatim>\<open>useLocale()\<close> returned.\<close>

definition useLocale_setLocale :: "string \<Rightarrow> page \<Rightarrow> page" where
  "useLocale_setLocale locale p = watch_currentLocale p (setLocale locale p)"


section \<open>The image build script (run.sh)\<close>

text \<open>
  The script runs under \<^verbatim>\<open>set -e\<close>. Its observable behaviour is the sequence of lines it
  prints and of \<^verbatim>\<open>docker\<close> commands it starts, and its exit status. A \<^verbatim>\<open>docker\<close>
  command is recorded by its command line after parameter expansion; the status it returns
  is given by the environment (\<open>rc\<close>), and a non-zero status ends the script with that status.
\<close>

record sh_env =
  IMAGE_REGISTRY :: "string option"
  IMAGE_TAG :: "string option"

datatype action = Echo string | Docker string

datatype cmd = Do action | Exit nat

text \<open>\<^verbatim>\<open>${VAR:-word}\<close>: the word when the variable is unset or empty.\<close>

definition default_value :: "string option \<Rightarrow> string \<Rightarrow> string" where
  "default_value v word = (case v of None \<Rightarrow> word | Some s \<Rightarrow> if s = [] then word else s)"

fun exec :: "(string \<Rightarrow> nat) \<Rightarrow> cmd list \<Rightarrow> action list \<times> nat" where
  "exec rc [] = ([], 0)"
| "exec rc (Exit n # cs) = ([], n)"
| "exec rc (Do (Echo s) # cs) = (let (tr, st) = exec rc cs in (Echo s # tr, st))"
| "exec rc (Do (Docker c) # cs) =
     (if rc c \<noteq> 0 then ([Docker c], rc c)
      else (let (tr, st) = exec rc cs in (Docker c # tr, st)))"

definition build :: "string \<Rightarrow> string \<Rightarrow> cmd list" where
  "build registry tag =
     [Do (Echo ''Building images...''), Do (Docker ''compose build'')] @
     (if registry \<noteq> [] then
        [Do (Docker (''tag euraika-frontend:latest '' @ registry @ ''/euraika-frontend:'' @ tag)),
         Do (Docker (''tag euraika-backend:latest '' @ registry @ ''/euraika-backend:'' @ tag)),
         Do (Docker (''tag euraika-sandbox:latest '' @ registry @ ''/euraika-sandbox:'' @ tag))]
      else [])"

definition push :: "string \<Rightarrow> string \<Rightarrow> cmd list" where
  "push registry tag =
     (if registry = [] then
        [Do (Echo ''Error: IMAGE_REGISTRY is not set''), Exit 1]
      else
        [Do (Echo (''Pushing images to '' @ registry @ ''...'')),
         Do (Docker (''push '' @ registry @ ''/euraika-frontend:'' @ tag)),
         Do (Docker (''push '' @ registry @ ''/euraika-backend:'' @ tag)),
         Do (Docker (''push '' @ registry @ ''/euraika-sandbox:'' @ tag))])"

text \<open>
  The whole script: \<open>script\<close> is \<^verbatim>\<open>$0\<close>, \<open>args\<close> the positional parameters;
  \<^verbatim>\<open>"$1"\<close> is empty when there is none.
\<close>

definition run_sh :: "(string \<Rightarrow> nat) \<Rightarrow> string \<Rightarrow> sh_env \<Rightarrow> string list \<Rightarrow> action list \<times> nat" where
  "run_sh rc script env args =
     (let registry = default_value (IMAGE_REGISTRY env) [];
          tag = default_value (IMAGE_TAG env) ''latest'';
          arg1 = (case args of [] \<Rightarrow> [] | a # _ \<Rightarrow> a)
      in exec rc
           (if arg1 = ''build'' then build registry tag
            else if arg1 = ''push'' then push registry tag
            else [Do (Echo (''Usage: '' @ script @ '' {build|push}'')), Exit 1]))"

definition is_docker :: "action \<Rightarrow> bool" where
  "is_docker a = (case a of Docker _ \<Rightarrow> True | Echo _ \<Rightarrow> False)"


section \<open>The orchestration core (backend; modelled from the specification)\<close>

text \<open>
  Modelled from the spec: the Session Orchestrator, the Sandbox Lifecycle Controller and the
  Tool Invocation Gateway are backend code that is not among the sources; the data model and
  the operations below follow sections 3 to 5 and 7 of the specification. A Sandbox is never
  shared across Sessions and every operation is session-scoped, so the state is that of one
  Session together with what it owns: its Sandbox reference, the ToolInvocations created for
  it and its agent-loop turns. Time is the reading of a clock, passed to the operations that
  consult it. Event publication is left out.
\<close>

datatype session_status =
  Pending | Active | RunningTool | Interrupted | Completed | Expired | Failed

datatype sandbox_status =
  Provisioning | Ready | Busy | Idle | Expiring | Destroyed

datatype tool_kind = Terminal | Browser | FileTool | WebSearch | ExternalMcp

datatype error =
  SandboxProvisionFailed | SandboxLost | SandboxBusy | NoSandbox
| ToolTimeout | ToolInterrupted | ToolError
| SessionBusy | SubscriberOverrun

datatype tool_result = Success string | Partial string | Error error

record sandbox =
  sb_identifier :: nat
  sb_container :: nat
  sb_address :: nat
  sb_status :: sandbox_status
  sb_deadline :: nat

record tool_invocation =
  ti_sandbox :: nat
  ti_kind :: tool_kind
  ti_payload :: string
  ti_deadline :: nat
  ti_cancel :: bool
  ti_result :: "tool_result option"

record turn =
  t_message :: string
  t_in_flight :: bool

record session =
  s_user :: nat
  s_conversation :: nat
  s_status :: session_status
  s_sandbox :: "sandbox option"
  s_invocations :: "tool_invocation list"
  s_turns :: "turn list"
  s_cancel :: bool

text \<open>
  Modelled from the spec: deployment parameters of the absent controller, the time-to-live
  of a Sandbox and the number N of health-check attempts of \<open>acquire\<close>.
\<close>

record config =
  cfg_ttl :: nat
  cfg_attempts :: nat

text \<open>
  Modelled from the spec: what the container runtime (Sandbox Driver) answers during one
  provisioning: the identifier, container handle and internal address of the new
  environment, and the outcome of the k-th health probe against its internal API.
\<close>

record driver =
  d_identifier :: nat
  d_container :: nat
  d_address :: nat
  d_healthy :: "nat \<Rightarrow> bool"

text \<open>
  Modelled from the spec: the structured tool call that the agent loop hands to the absent
  Gateway, and what the sandbox-internal API (a black box) does with it.
\<close>

record tool_call =
  c_kind :: tool_kind
  c_payload :: string

datatype outcome = Returned string | TimedOut | Errored

text \<open>
  Modelled from the spec: a ToolInvocation is outstanding (\<open>running\<close>) from its creation
  until it is terminated by completion, timeout or interrupt, that is while it has no result.
\<close>

definition running :: "tool_invocation \<Rightarrow> bool" where
  "running i = (ti_result i = None)"

text \<open>
  Modelled from the spec: terminating the outstanding ToolInvocation of the absent Gateway
  records its result; \<open>cancelled\<close> says whether the cancellation flag was raised.
\<close>

definition terminate :: "tool_result \<Rightarrow> bool \<Rightarrow> tool_invocation list \<Rightarrow> tool_invocation list" where
  "terminate r cancelled invs =
     map (\<lambda>i. if running i then i\<lparr>ti_result := Some r, ti_cancel := cancelled\<rparr> else i) invs"

text \<open>
  Modelled from the spec: \<open>createSession(conversationRef, userId)\<close> of the absent Session
  Orchestrator gives a Session of status \<open>pending\<close> that owns nothing yet.
\<close>

definition createSession :: "nat \<Rightarrow> nat \<Rightarrow> session" where
  "createSession conversationRef userId =
     \<lparr>s_user = userId, s_conversation = conversationRef, s_status = Pending,
      s_sandbox = None, s_invocations = [], s_turns = [], s_cancel = False\<rparr>"

text \<open>
  Modelled from the spec: \<open>submitUserTurn\<close> of the absent Session Orchestrator. Exactly
  one agent-loop turn may be in flight per Session; a second call while one is in flight
  fails with \<open>SessionBusy\<close> rather than queuing. Otherwise the turn starts and the Session
  is active.
\<close>

definition submitUserTurn :: "string \<Rightarrow> session \<Rightarrow> error + session" where
  "submitUserTurn message s =
     (if list_ex t_in_flight (s_turns s) then Inl SessionBusy
      else Inr (s\<lparr>s_turns := s_turns s @ [\<lparr>t_message = message, t_in_flight = True\<rparr>],
                 s_status := Active, s_cancel := False\<rparr>))"

text \<open>
  Modelled from the spec: the end of a turn of the absent agent loop, which repeats until it
  emits a final answer; no tool call is outstanding then.
\<close>

definition finalAnswer :: "session \<Rightarrow> session" where
  "finalAnswer s =
     (if list_ex running (s_invocations s) then s
      else s\<lparr>s_turns := map (\<lambda>t. t\<lparr>t_in_flight := False\<rparr>) (s_turns s)\<rparr>)"

text \<open>
  Modelled from the spec: the bounded wait of \<open>acquire\<close> for the internal API health check;
  \<open>wait_healthy probe k n\<close> makes at most \<open>n\<close> probes, numbered from \<open>k\<close>, and returns
  whether one succeeded together with the number of probes made.
\<close>

fun wait_healthy :: "(nat \<Rightarrow> bool) \<Rightarrow> nat \<Rightarrow> nat \<Rightarrow> bool \<times> nat" where
  "wait_healthy probe k 0 = (False, 0)"
| "wait_healthy probe k (Suc n) =
     (if probe k then (True, 1)
      else (let (ok, made) = wait_healthy probe (Suc k) n in (ok, Suc made)))"

text \<open>
  Modelled from the spec: a Sandbox is live while it can serve or is serving tool calls
  (\<open>ready\<close>, \<open>busy\<close>, or \<open>idle\<close> awaiting reattachment).
\<close>

definition live :: "sandbox \<Rightarrow> bool" where
  "live b = (sb_status b = Ready \<or> sb_status b = Busy \<or> sb_status b = Idle)"

text \<open>
  Modelled from the spec: the provisioning step of \<open>acquire\<close> in the absent Sandbox
  Lifecycle Controller: create container, attach private network, wait for the internal API
  health check with bounded retries, fail with \<open>SandboxProvisionFailed\<close> after N attempts.
  The new Sandbox is \<open>ready\<close> and its TTL runs from now.
\<close>

definition provision :: "config \<Rightarrow> driver \<Rightarrow> nat \<Rightarrow> error + sandbox" where
  "provision cfg d now =
     (if fst (wait_healthy (d_healthy d) 0 (cfg_attempts cfg)) then
        Inr \<lparr>sb_identifier = d_identifier d, sb_container = d_container d,
             sb_address = d_address d, sb_status = Ready, sb_deadline = now + cfg_ttl cfg\<rparr>
      else Inl SandboxProvisionFailed)"

text \<open>
  Modelled from the spec: \<open>acquire(sessionId)\<close> of the absent Sandbox Lifecycle Controller.
  If the Session already owns a live Sandbox, it is returned; otherwise a new one is
  provisioned, which the Session then owns.
\<close>

definition acquire :: "config \<Rightarrow> driver \<Rightarrow> nat \<Rightarrow> session \<Rightarrow> error + (sandbox \<times> session)" where
  "acquire cfg d now s =
     (case s_sandbox s of
        Some b \<Rightarrow>
          if live b then Inr (b, s)
          else (case provision cfg d now of
                  Inl e \<Rightarrow> Inl e
                | Inr b' \<Rightarrow> Inr (b', s\<lparr>s_sandbox := Some b'\<rparr>))
      | None \<Rightarrow>
          (case provision cfg d now of
             Inl e \<Rightarrow> Inl e
           | Inr b' \<Rightarrow> Inr (b', s\<lparr>s_sandbox := Some b'\<rparr>)))"

text \<open>
  Modelled from the spec: \<open>release(sessionId)\<close> of the absent controller marks the Sandbox
  \<open>idle\<close> and schedules its TTL expiry. By the per-Sandbox exclusivity rule it does not act
  on a Sandbox on which an \<open>invoke\<close> is acting.
\<close>

definition release :: "config \<Rightarrow> nat \<Rightarrow> session \<Rightarrow> session" where
  "release cfg now s =
     (case s_sandbox s of
        None \<Rightarrow> s
      | Some b \<Rightarrow>
          if sb_status b = Ready \<or> sb_status b = Idle
          then s\<lparr>s_sandbox := Some (b\<lparr>sb_status := Idle, sb_deadline := now + cfg_ttl cfg\<rparr>)\<rparr>
          else s)"

text \<open>
  Modelled from the spec: \<open>reapExpired()\<close> of the absent controller, as it touches this
  Session: a Sandbox whose TTL has elapsed with no owning active Session is destroyed. By the
  exclusivity rule it does not act on a Sandbox on which an \<open>invoke\<close> is acting.
\<close>

definition reapExpired :: "nat \<Rightarrow> session \<Rightarrow> session" where
  "reapExpired now s =
     (case s_sandbox s of
        None \<Rightarrow> s
      | Some b \<Rightarrow>
          if sb_deadline b < now \<and> s_status s \<noteq> Active \<and> s_status s \<noteq> RunningTool
             \<and> sb_status b \<noteq> Busy \<and> sb_status b \<noteq> Destroyed
          then s\<lparr>s_sandbox := Some (b\<lparr>sb_status := Destroyed\<rparr>)\<rparr>
          else s)"

text \<open>
  Modelled from the spec: the entry of \<open>invoke(sessionId, toolCall, timeout)\<close> of the absent
  Tool Invocation Gateway. It resolves the Session's Sandbox, which must exist and be
  \<open>ready\<close> or \<open>idle\<close>, otherwise the call fails with \<open>NoSandbox\<close>; on a Sandbox that is
  \<open>busy\<close> with an earlier call it fails with \<open>SandboxBusy\<close>. Else it marks the Sandbox
  \<open>busy\<close> and the Session \<open>running-tool\<close>, and the new ToolInvocation is forwarded.
\<close>

definition invoke :: "tool_call \<Rightarrow> nat \<Rightarrow> nat \<Rightarrow> session \<Rightarrow> error + session" where
  "invoke toolCall timeout now s =
     (case s_sandbox s of
        None \<Rightarrow> Inl NoSandbox
      | Some b \<Rightarrow>
          if sb_status b = Busy then Inl SandboxBusy
          else if sb_status b = Ready \<or> sb_status b = Idle then
            Inr (s\<lparr>s_sandbox := Some (b\<lparr>sb_status := Busy\<rparr>),
                   s_status := RunningTool,
                   s_invocations := s_invocations s @
                     [\<lparr>ti_sandbox = sb_identifier b, ti_kind = c_kind toolCall,
                       ti_payload = c_payload toolCall, ti_deadline = now + timeout,
                       ti_cancel = False, ti_result = None\<rparr>]\<rparr>)
          else Inl NoSandbox)"

text \<open>
  Modelled from the spec: the Sandbox and the Session leave \<open>busy\<close> and \<open>running-tool\<close>
  when the outstanding ToolInvocation is terminated.
\<close>

definition idle_again :: "session \<Rightarrow> session" where
  "idle_again s =
     s\<lparr>s_sandbox := map_option (\<lambda>b. if sb_status b = Busy then b\<lparr>sb_status := Ready\<rparr> else b)
                      (s_sandbox s),
       s_status := (if s_status s = RunningTool then Active else s_status s)\<rparr>"

text \<open>
  Modelled from the spec: the return of \<open>invoke\<close>. The sandbox-internal call returned,
  timed out (\<open>ToolTimeout\<close>) or failed (\<open>ToolError\<close>); a successful invocation refreshes
  the TTL deadline of the Sandbox.
\<close>

definition complete :: "config \<Rightarrow> outcome \<Rightarrow> nat \<Rightarrow> session \<Rightarrow> session" where
  "complete cfg out now s =
     (if \<not> list_ex running (s_invocations s) then s
      else (case out of
              Returned payload \<Rightarrow>
                (idle_again s)
                  \<lparr>s_invocations := terminate (Success payload) False (s_invocations s),
                   s_sandbox := map_option (\<lambda>b. b\<lparr>sb_deadline := now + cfg_ttl cfg\<rparr>)
                                   (s_sandbox (idle_again s))\<rparr>
            | TimedOut \<Rightarrow>
                (idle_again s)\<lparr>s_invocations := terminate (Error ToolTimeout) True (s_invocations s)\<rparr>
            | Errored \<Rightarrow>
                (idle_again s)\<lparr>s_invocations := terminate (Error ToolError) False (s_invocations s)\<rparr>))"

text \<open>
  Modelled from the spec: \<open>interrupt(sessionId)\<close> of the absent Session Orchestrator sets the
  cancellation signal; the in-flight ToolInvocation ends as \<open>ToolInterrupted\<close> and the
  Session immediately leaves \<open>running-tool\<close> and accepts the next turn.
\<close>

definition interrupt :: "session \<Rightarrow> session" where
  "interrupt s =
     (idle_again s)
       \<lparr>s_cancel := True,
        s_invocations := terminate (Error ToolInterrupted) True (s_invocations s),
        s_turns := map (\<lambda>t. t\<lparr>t_in_flight := False\<rparr>) (s_turns s),
        s_status := (if list_ex t_in_flight (s_turns s) then Interrupted else s_status s)\<rparr>"

text \<open>
  Modelled from the spec: \<open>endSession(sessionId)\<close> of the absent Session Orchestrator
  releases the Sandbox and marks the Session \<open>completed\<close>.
\<close>

definition endSession :: "config \<Rightarrow> nat \<Rightarrow> session \<Rightarrow> session" where
  "endSession cfg now s = (release cfg now s)\<lparr>s_status := Completed\<rparr>"

text \<open>
  Modelled from the spec: the calls that can reach one Session, in any order and
  interleaving; a call that fails leaves the Session as it was.
\<close>

datatype call =
  SubmitUserTurn string
| FinalAnswer
| Interrupt
| EndSession nat
| Acquire driver nat
| Release nat
| ReapExpired nat
| Invoke tool_call nat nat
| Complete outcome nat

text \<open>
  Modelled from the spec: the effect of one call on the Session; a call that fails leaves the
  Session as it was.
\<close>

fun step :: "config \<Rightarrow> session \<Rightarrow> call \<Rightarrow> session" where
  "step cfg s (SubmitUserTurn m) = (case submitUserTurn m s of Inl e \<Rightarrow> s | Inr s' \<Rightarrow> s')"
| "step cfg s FinalAnswer = finalAnswer s"
| "step cfg s Interrupt = interrupt s"
| "step cfg s (EndSession now) = endSession cfg now s"
| "step cfg s (Acquire d now) = (case acquire cfg d now s of Inl e \<Rightarrow> s | Inr (b, s') \<Rightarrow> s')"
| "step cfg s (Release now) = release cfg now s"
| "step cfg s (ReapExpired now) = reapExpired now s"
| "step cfg s (Invoke c timeout now) = (case invoke c timeout now s of Inl e \<Rightarrow> s | Inr s' \<Rightarrow> s')"
| "step cfg s (Complete out now) = complete cfg out now s"

text \<open>
  Modelled from the spec: the state a Session is in after a sequence of calls.
\<close>

definition run :: "config \<Rightarrow> session \<Rightarrow> call list \<Rightarrow> session" where
  "run cfg s calls = foldl (step cfg) s calls"

text \<open>
  Modelled from the spec: the Session owns a Sandbox that the absent Gateway has marked
  \<open>busy\<close>.
\<close>

definition busy_sandbox :: "session \<Rightarrow> bool" where
  "busy_sandbox s = (case s_sandbox s of None \<Rightarrow> False | Some b \<Rightarrow> sb_status b = Busy)"

text \<open>
  Modelled from the spec: the invariant of a Session. At most one of its ToolInvocations is
  running, the Sandbox is \<open>busy\<close> while one is, and at most one of its turns is in flight.
\<close>

definition session_inv :: "session \<Rightarrow> bool" where
  "session_inv s =
     (length (filter running (s_invocations s)) \<le> 1
      \<and> (list_ex running (s_invocations s) \<longrightarrow> busy_sandbox s)
      \<and> length (filter t_in_flight (s_turns s)) \<le> 1)"


section \<open>Properties of the locale handling\<close>

lemma getStoredLocale_setLocale:
  "getStoredLocale (setLocale l p) = (if l = [] then ''en'' else l)"
  by (simp add: getStoredLocale_def setLocale_def getBrowserLocale_def)

lemma useLocale_setLocale_eq: "useLocale_setLocale l p = setLocale l p"
  by (cases "html p") (simp_all add: useLocale_setLocale_def watch_currentLocale_def setLocale_def)

text \<open>
  Claim C8. \<open>getBrowserLocale\<close> answers \<open>en\<close> whatever the page state (in particular
  whatever language the browser reports); hence \<open>getStoredLocale\<close> answers \<open>en\<close>
  whenever \<open>localStorage\<close> has no entry under \<open>euraika-locale\<close>. \<open>en\<close> is the only
  member of \<open>Locale\<close> and the only value listed in \<open>availableLocales\<close>.
\<close>

theorem C8_only_english:
  "getBrowserLocale p = ''en''
   \<and> (localStorage p ''euraika-locale'' = None \<longrightarrow> getStoredLocale p = ''en'')
   \<and> Locale = {''en''}
   \<and> map snd availableLocales = [''en'']"
  by (simp add: getBrowserLocale_def getStoredLocale_def STORAGE_KEY_def Locale_def
      availableLocales_def)

theorem C8_only_english_witness:
  "localStorage \<lparr>navigator_language = ''nl-BE'', localStorage = Map.empty, html = None,
       i18n_locale = ''en'', currentLocale = ''en''\<rparr> ''euraika-locale'' = None
   \<and> getStoredLocale \<lparr>navigator_language = ''nl-BE'', localStorage = Map.empty, html = None,
       i18n_locale = ''en'', currentLocale = ''en''\<rparr> = ''en''"
  using C8_only_english [of "\<lparr>navigator_language = ''nl-BE'', localStorage = Map.empty,
       html = None, i18n_locale = ''en'', currentLocale = ''en''\<rparr>"]
  by simp

text \<open>
  Claim C9, as the code has it. No member of \<open>Locale\<close> is empty, and for every non-empty
  string \<open>l\<close> (so for every locale value), \<open>setLocale l\<close> followed by \<open>getStoredLocale\<close>
  gives \<open>l\<close> back, and \<open>i18n.global.locale.value\<close> is \<open>l\<close> afterwards.
  \<open>getStoredLocale\<close> validates nothing: a non-empty string found under
  \<open>euraika-locale\<close> is returned as it is, whether or not it is a member of \<open>Locale\<close>. An
  empty string found there is falsy, and \<open>en\<close> is returned in its place.
\<close>

theorem C9_locale_roundtrip:
  "[] \<notin> Locale
   \<and> (l \<noteq> [] \<longrightarrow> getStoredLocale (useLocale_setLocale l p) = l)
   \<and> i18n_locale (useLocale_setLocale l p) = l
   \<and> (localStorage p ''euraika-locale'' = Some s \<and> s \<noteq> [] \<longrightarrow> getStoredLocale p = s)
   \<and> (localStorage p ''euraika-locale'' = Some [] \<longrightarrow> getStoredLocale p = ''en'')"
proof -
  have "getStoredLocale (useLocale_setLocale l p) = (if l = [] then ''en'' else l)"
    by (simp only: useLocale_setLocale_eq getStoredLocale_setLocale)
  moreover have "i18n_locale (useLocale_setLocale l p) = l"
    by (simp add: useLocale_setLocale_eq setLocale_def)
  moreover have "localStorage p ''euraika-locale'' = Some s \<Longrightarrow> s \<noteq> [] \<Longrightarrow> getStoredLocale p = s"
    by (simp add: getStoredLocale_def STORAGE_KEY_def)
  moreover have "localStorage p ''euraika-locale'' = Some [] \<Longrightarrow> getStoredLocale p = ''en''"
    by (simp add: getStoredLocale_def STORAGE_KEY_def getBrowserLocale_def)
  moreover have "[] \<notin> Locale"
    by (simp add: Locale_def)
  ultimately show ?thesis by simp
qed

text \<open>
  The theorem at concrete pages: \<open>en\<close> is set on a page that had \<open>fr\<close> shown and the
  unsupported \<open>tlh\<close> stored; that page reads \<open>tlh\<close> back unchecked; a page with the empty
  string stored reads \<open>en\<close>.
\<close>

theorem C9_locale_roundtrip_witness:
  "getStoredLocale (useLocale_setLocale ''en''
      \<lparr>navigator_language = ''fr-FR'', localStorage = [''euraika-locale'' \<mapsto> ''tlh''],
       html = Some Map.empty, i18n_locale = ''fr'', currentLocale = ''fr''\<rparr>) = ''en''
   \<and> i18n_locale (useLocale_setLocale ''en''
      \<lparr>navigator_language = ''fr-FR'', localStorage = [''euraika-locale'' \<mapsto> ''tlh''],
       html = Some Map.empty, i18n_locale = ''fr'', currentLocale = ''fr''\<rparr>) = ''en''
   \<and> getStoredLocale
      \<lparr>navigator_language = ''fr-FR'', localStorage = [''euraika-locale'' \<mapsto> ''tlh''],
       html = Some Map.empty, i18n_locale = ''fr'', currentLocale = ''fr''\<rparr> = ''tlh''
   \<and> getStoredLocale
      \<lparr>navigator_language = ''fr-FR'', localStorage = [''euraika-locale'' \<mapsto> []],
       html = Some Map.empty, i18n_locale = ''fr'', currentLocale = ''fr''\<rparr> = ''en''"
  using
    C9_locale_roundtrip [of "''en''"
      "\<lparr>navigator_language = ''fr-FR'', localStorage = [''euraika-locale'' \<mapsto> ''tlh''],
        html = Some Map.empty, i18n_locale = ''fr'', currentLocale = ''fr''\<rparr>" "''tlh''"]
    C9_locale_roundtrip [of "''en''"
      "\<lparr>navigator_language = ''fr-FR'', localStorage = [''euraika-locale'' \<mapsto> []],
        html = Some Map.empty, i18n_locale = ''fr'', currentLocale = ''fr''\<rparr>" "[]"]
  by simp

text \<open>
  The claim as written (any stored string is returned) fails at the empty string: with the
  empty string stored under the key, \<open>getStoredLocale\<close> returns \<open>en\<close> and not the
  stored string.
\<close>

theorem C9_empty_string_counterexample:
  "localStorage
      \<lparr>navigator_language = ''en-US'', localStorage = [''euraika-locale'' \<mapsto> []],
       html = None, i18n_locale = ''en'', currentLocale = ''en''\<rparr> ''euraika-locale'' = Some []
   \<and> getStoredLocale
      \<lparr>navigator_language = ''en-US'', localStorage = [''euraika-locale'' \<mapsto> []],
       html = None, i18n_locale = ''en'', currentLocale = ''en''\<rparr> = ''en''
   \<and> getStoredLocale
      \<lparr>navigator_language = ''en-US'', localStorage = [''euraika-locale'' \<mapsto> []],
       html = None, i18n_locale = ''en'', currentLocale = ''en''\<rparr> \<noteq> []"
  by (simp add: getStoredLocale_def STORAGE_KEY_def getBrowserLocale_def)


section \<open>Properties of the build script\<close>

lemma default_value_empty:
  "v = None \<or> v = Some [] \<Longrightarrow> default_value v [] = []"
  by (auto simp: default_value_def)

text \<open>
  Claim C10. With \<open>push\<close> as first argument and \<open>IMAGE_REGISTRY\<close> unset or empty, the
  script prints the error line and nothing else, starts no \<open>docker\<close> command and exits with
  status 1. With a first argument other than \<open>build\<close> and \<open>push\<close>, or with no argument,
  it prints the usage line and nothing else, starts no \<open>docker\<close> command and exits with
  status 1. Neither depends on what \<open>docker\<close> would have returned.
\<close>

theorem C10_push_without_registry_and_usage:
  "(IMAGE_REGISTRY env = None \<or> IMAGE_REGISTRY env = Some [] \<longrightarrow>
      run_sh rc script env (''push'' # rest) = ([Echo ''Error: IMAGE_REGISTRY is not set''], 1)
      \<and> \<not> list_ex is_docker (fst (run_sh rc script env (''push'' # rest))))
   \<and> (a \<noteq> ''build'' \<and> a \<noteq> ''push'' \<longrightarrow>
      run_sh rc script env (a # rest) = ([Echo (''Usage: '' @ script @ '' {build|push}'')], 1)
      \<and> \<not> list_ex is_docker (fst (run_sh rc script env (a # rest))))
   \<and> run_sh rc script env [] = ([Echo (''Usage: '' @ script @ '' {build|push}'')], 1)"
proof -
  have p: "run_sh rc script env (''push'' # rest) = ([Echo ''Error: IMAGE_REGISTRY is not set''], 1)"
    if "IMAGE_REGISTRY env = None \<or> IMAGE_REGISTRY env = Some []"
    using default_value_empty [OF that] by (simp add: run_sh_def push_def)
  have u: "run_sh rc script env (a # rest) = ([Echo (''Usage: '' @ script @ '' {build|push}'')], 1)"
    if "a \<noteq> ''build''" "a \<noteq> ''push''"
    using that by (simp add: run_sh_def Let_def)
  have n: "run_sh rc script env [] = ([Echo (''Usage: '' @ script @ '' {build|push}'')], 1)"
    by (simp add: run_sh_def Let_def)
  show ?thesis
    using p u n by (simp add: is_docker_def)
qed

theorem C10_push_without_registry_and_usage_witness:
  "run_sh (\<lambda>c. 0) ''./run.sh'' \<lparr>IMAGE_REGISTRY = Some [], IMAGE_TAG = Some ''v1''\<rparr> [''push'']
     = ([Echo ''Error: IMAGE_REGISTRY is not set''], 1)
   \<and> run_sh (\<lambda>c. 0) ''./run.sh'' \<lparr>IMAGE_REGISTRY = Some [], IMAGE_TAG = Some ''v1''\<rparr> [''deploy'']
     = ([Echo ''Usage: ./run.sh {build|push}''], 1)"
  using C10_push_without_registry_and_usage
    [of "\<lparr>IMAGE_REGISTRY = Some [], IMAGE_TAG = Some ''v1''\<rparr>" "\<lambda>c. 0" "''./run.sh''" "[]" "''deploy''"]
  by simp


section \<open>Properties of the orchestration core\<close>

lemma filter_running_terminate: "filter running (terminate r c invs) = []"
  by (induction invs) (simp_all add: terminate_def running_def)

lemma list_ex_running_terminate: "\<not> list_ex running (terminate r c invs)"
  by (induction invs) (simp_all add: terminate_def running_def)

lemma filter_in_flight_finished: "filter t_in_flight (map (\<lambda>t. t\<lparr>t_in_flight := False\<rparr>) ts) = []"
  by (induction ts) simp_all

lemma no_running_filter: "\<not> list_ex running invs \<Longrightarrow> filter running invs = []"
  by (induction invs) simp_all

lemma no_in_flight_filter: "\<not> list_ex t_in_flight ts \<Longrightarrow> filter t_in_flight ts = []"
  by (induction ts) simp_all

lemma inv_createSession: "session_inv (createSession c u)"
  by (simp add: session_inv_def createSession_def)

lemma inv_submitUserTurn: "session_inv s \<Longrightarrow> submitUserTurn m s = Inr s' \<Longrightarrow> session_inv s'"
  by (auto simp: session_inv_def submitUserTurn_def busy_sandbox_def no_in_flight_filter
      split: if_splits)

lemma inv_finalAnswer: "session_inv s \<Longrightarrow> session_inv (finalAnswer s)"
  by (auto simp: session_inv_def finalAnswer_def busy_sandbox_def filter_in_flight_finished)

lemma inv_interrupt: "session_inv s \<Longrightarrow> session_inv (interrupt s)"
  by (simp add: session_inv_def interrupt_def idle_again_def filter_running_terminate
      list_ex_running_terminate filter_in_flight_finished)

lemma inv_release: "session_inv s \<Longrightarrow> session_inv (release cfg now s)"
  by (auto simp: session_inv_def release_def busy_sandbox_def split: option.splits)

lemma inv_endSession: "session_inv s \<Longrightarrow> session_inv (endSession cfg now s)"
  using inv_release [of s cfg now] by (simp add: endSession_def session_inv_def busy_sandbox_def)

lemma inv_reapExpired: "session_inv s \<Longrightarrow> session_inv (reapExpired now s)"
  by (auto simp: session_inv_def reapExpired_def busy_sandbox_def split: option.splits)

lemma inv_acquire: "session_inv s \<Longrightarrow> acquire cfg d now s = Inr (b, s') \<Longrightarrow> session_inv s'"
  by (auto simp: session_inv_def acquire_def busy_sandbox_def live_def
      split: option.splits if_splits sum.splits)

lemma inv_invoke: "session_inv s \<Longrightarrow> invoke c t now s = Inr s' \<Longrightarrow> session_inv s'"
  by (auto simp: session_inv_def invoke_def busy_sandbox_def running_def no_running_filter
      split: option.splits if_splits)

lemma inv_complete: "session_inv s \<Longrightarrow> session_inv (complete cfg out now s)"
  by (cases out)
    (simp_all add: session_inv_def complete_def idle_again_def filter_running_terminate
      list_ex_running_terminate)

lemma inv_step: "session_inv s \<Longrightarrow> session_inv (step cfg s c)"
proof (cases c)
  case (SubmitUserTurn m)
  assume "session_inv s"
  with SubmitUserTurn show ?thesis
    by (auto split: sum.splits dest: inv_submitUserTurn)
next
  case (Acquire d now)
  assume "session_inv s"
  with Acquire show ?thesis
    by (auto split: sum.splits dest: inv_acquire)
next
  case (Invoke tc t now)
  assume "session_inv s"
  with Invoke show ?thesis
    by (auto split: sum.splits dest: inv_invoke)
qed (simp_all add: inv_finalAnswer inv_interrupt inv_endSession inv_release inv_reapExpired
    inv_complete)

lemma inv_run: "session_inv s \<Longrightarrow> session_inv (run cfg s calls)"
  unfolding run_def by (induction calls arbitrary: s) (simp_all add: inv_step)

lemma wait_healthy_bound: "snd (wait_healthy probe k n) \<le> n"
  by (induction n arbitrary: k) (simp_all add: split_beta Suc_le_mono)

lemma wait_healthy_all_fail:
  "(\<forall>j<n. \<not> probe (k + j)) \<Longrightarrow> wait_healthy probe k n = (False, n)"
proof (induction n arbitrary: k)
  case 0
  then show ?case by simp
next
  case (Suc n)
  have "\<not> probe k" using Suc.prems [rule_format, of 0] by simp
  moreover have "wait_healthy probe (Suc k) n = (False, n)"
    using Suc.prems by (intro Suc.IH) (auto dest: spec [where x = "Suc _"])
  ultimately show ?case by (simp add: split_beta)
qed

lemma wait_healthy_some:
  "j < n \<Longrightarrow> probe (k + j) \<Longrightarrow> fst (wait_healthy probe k n)"
proof (induction n arbitrary: k j)
  case 0
  then show ?case by simp
next
  case (Suc n)
  show ?case
  proof (cases "probe k")
    case True
    then show ?thesis by simp
  next
    case False
    with Suc.prems obtain j' where j': "j = Suc j'" by (cases j) auto
    with Suc.prems have "fst (wait_healthy probe (Suc k) n)"
      by (intro Suc.IH [of j']) auto
    with False show ?thesis by (simp add: split_beta)
  qed
qed

lemma length_filter_on_sandbox:
  "length (filter (\<lambda>i. ti_sandbox i = b \<and> running i) invs) \<le> length (filter running invs)"
  by (induction invs) (simp_all add: le_SucI)

lemma acquire_live: "s_sandbox s = Some b \<Longrightarrow> live b \<Longrightarrow> acquire cfg d now s = Inr (b, s)"
  by (simp add: acquire_def)

lemma acquire_not_live:
  "\<not> (\<exists>b. s_sandbox s = Some b \<and> live b) \<Longrightarrow>
   acquire cfg d now s =
     (case provision cfg d now of Inl e \<Rightarrow> Inl e | Inr b' \<Rightarrow> Inr (b', s\<lparr>s_sandbox := Some b'\<rparr>))"
  by (cases "s_sandbox s") (simp_all add: acquire_def)

text \<open>
  Claim C5. A Session that owns a live Sandbox gets that Sandbox back and nothing changes.
  Otherwise \<open>acquire\<close> provisions: it makes at most N health probes; when all N fail it
  fails with \<open>SandboxProvisionFailed\<close>, having made exactly N; when one of the first N
  succeeds it returns the new Sandbox, \<open>ready\<close>, which the Session then owns. The function
  is total, \<open>SandboxProvisionFailed\<close> is its only failure, and no call makes more than N
  probes.
\<close>

theorem C5_acquire_reuse_or_bounded_provision:
  "(s_sandbox s = Some b \<and> live b \<longrightarrow> acquire cfg d now s = Inr (b, s))
   \<and> snd (wait_healthy (d_healthy d) 0 (cfg_attempts cfg)) \<le> cfg_attempts cfg
   \<and> (acquire cfg d now s = Inl e \<longrightarrow> e = SandboxProvisionFailed)
   \<and> (\<not> (\<exists>b. s_sandbox s = Some b \<and> live b) \<longrightarrow>
        ((\<forall>k<cfg_attempts cfg. \<not> d_healthy d k) \<longrightarrow>
           acquire cfg d now s = Inl SandboxProvisionFailed
           \<and> wait_healthy (d_healthy d) 0 (cfg_attempts cfg) = (False, cfg_attempts cfg))
        \<and> ((\<exists>k<cfg_attempts cfg. d_healthy d k) \<longrightarrow>
           acquire cfg d now s =
             Inr (\<lparr>sb_identifier = d_identifier d, sb_container = d_container d,
                   sb_address = d_address d, sb_status = Ready,
                   sb_deadline = now + cfg_ttl cfg\<rparr>,
                  s\<lparr>s_sandbox := Some \<lparr>sb_identifier = d_identifier d,
                       sb_container = d_container d, sb_address = d_address d,
                       sb_status = Ready, sb_deadline = now + cfg_ttl cfg\<rparr>\<rparr>)))"
proof -
  let ?n = "cfg_attempts cfg"
  have reuse: "s_sandbox s = Some b \<and> live b \<longrightarrow> acquire cfg d now s = Inr (b, s)"
    by (simp add: acquire_live)
  have bound: "snd (wait_healthy (d_healthy d) 0 ?n) \<le> ?n"
    by (rule wait_healthy_bound)
  have only: "acquire cfg d now s = Inl e \<longrightarrow> e = SandboxProvisionFailed"
    by (auto simp: acquire_def provision_def split: option.splits if_splits)
  have fail: "acquire cfg d now s = Inl SandboxProvisionFailed
              \<and> wait_healthy (d_healthy d) 0 ?n = (False, ?n)"
    if "\<not> (\<exists>b. s_sandbox s = Some b \<and> live b)" "\<forall>k<?n. \<not> d_healthy d k"
  proof -
    have "wait_healthy (d_healthy d) 0 ?n = (False, ?n)"
      using that(2) by (intro wait_healthy_all_fail) simp
    then show ?thesis
      by (simp add: acquire_not_live [OF that(1)] provision_def)
  qed
  have ok: "acquire cfg d now s =
             Inr (\<lparr>sb_identifier = d_identifier d, sb_container = d_container d,
                   sb_address = d_address d, sb_status = Ready,
                   sb_deadline = now + cfg_ttl cfg\<rparr>,
                  s\<lparr>s_sandbox := Some \<lparr>sb_identifier = d_identifier d,
                       sb_container = d_container d, sb_address = d_address d,
                       sb_status = Ready, sb_deadline = now + cfg_ttl cfg\<rparr>\<rparr>)"
    if "\<not> (\<exists>b. s_sandbox s = Some b \<and> live b)" "\<exists>k<?n. d_healthy d k"
  proof -
    from that(2) obtain k where "k < ?n" "d_healthy d (0 + k)" by auto
    then have "fst (wait_healthy (d_healthy d) 0 ?n)"
      by (rule wait_healthy_some)
    then show ?thesis
      by (simp add: acquire_not_live [OF that(1)] provision_def)
  qed
  from reuse bound only fail ok show ?thesis by blast
qed

theorem C5_acquire_reuse_or_bounded_provision_witness:
  "acquire \<lparr>cfg_ttl = 30, cfg_attempts = 3\<rparr>
      \<lparr>d_identifier = 8, d_container = 80, d_address = 800, d_healthy = (\<lambda>k. False)\<rparr> 100
      ((createSession 1 2)\<lparr>s_sandbox := Some \<lparr>sb_identifier = 7, sb_container = 70,
          sb_address = 700, sb_status = Idle, sb_deadline = 90\<rparr>\<rparr>)
     = Inr (\<lparr>sb_identifier = 7, sb_container = 70, sb_address = 700, sb_status = Idle,
              sb_deadline = 90\<rparr>,
            (createSession 1 2)\<lparr>s_sandbox := Some \<lparr>sb_identifier = 7, sb_container = 70,
              sb_address = 700, sb_status = Idle, sb_deadline = 90\<rparr>\<rparr>)
   \<and> acquire \<lparr>cfg_ttl = 30, cfg_attempts = 3\<rparr>
      \<lparr>d_identifier = 8, d_container = 80, d_address = 800, d_healthy = (\<lambda>k. False)\<rparr> 100
      (createSession 1 2)
     = Inl SandboxProvisionFailed
   \<and> wait_healthy (\<lambda>k. False) 0 3 = (False, 3)
   \<and> acquire \<lparr>cfg_ttl = 30, cfg_attempts = 3\<rparr>
      \<lparr>d_identifier = 8, d_container = 80, d_address = 800, d_healthy = (\<lambda>k. k = 2)\<rparr> 100
      (createSession 1 2)
     = Inr (\<lparr>sb_identifier = 8, sb_container = 80, sb_address = 800, sb_status = Ready,
              sb_deadline = 130\<rparr>,
            (createSession 1 2)\<lparr>s_sandbox := Some \<lparr>sb_identifier = 8, sb_container = 80,
              sb_address = 800, sb_status = Ready, sb_deadline = 130\<rparr>\<rparr>)"
proof -
  have no: "\<not> (\<exists>b. s_sandbox (createSession 1 2) = Some b \<and> live b)"
    by (simp add: createSession_def)
  have third: "\<exists>k<3::nat. k = 2" by simp
  show ?thesis
    using
      C5_acquire_reuse_or_bounded_provision
        [of "(createSession 1 2)\<lparr>s_sandbox := Some \<lparr>sb_identifier = 7, sb_container = 70,
              sb_address = 700, sb_status = Idle, sb_deadline = 90\<rparr>\<rparr>"
            "\<lparr>sb_identifier = 7, sb_container = 70, sb_address = 700, sb_status = Idle,
              sb_deadline = 90\<rparr>"
            "\<lparr>cfg_ttl = 30, cfg_attempts = 3\<rparr>"
            "\<lparr>d_identifier = 8, d_container = 80, d_address = 800, d_healthy = (\<lambda>k. False)\<rparr>"
            100]
      C5_acquire_reuse_or_bounded_provision
        [of "createSession 1 2" b "\<lparr>cfg_ttl = 30, cfg_attempts = 3\<rparr>"
            "\<lparr>d_identifier = 8, d_container = 80, d_address = 800, d_healthy = (\<lambda>k. False)\<rparr>"
            100]
      C5_acquire_reuse_or_bounded_provision
        [of "createSession 1 2" b "\<lparr>cfg_ttl = 30, cfg_attempts = 3\<rparr>"
            "\<lparr>d_identifier = 8, d_container = 80, d_address = 800, d_healthy = (\<lambda>k. k = 2)\<rparr>"
            100]
      no third
    by (simp add: live_def)
qed

text \<open>
  Claim C2. In every state a Session can reach, at most one of its ToolInvocations is running
  on any Sandbox; and while one is outstanding, a further \<open>invoke\<close> fails with
  \<open>SandboxBusy\<close> and leaves the Session as it was: no second ToolInvocation is created or
  forwarded.
\<close>

theorem C2_second_invoke_sandbox_busy:
  "(let s = run cfg (createSession conversationRef userId) calls in
     (list_ex running (s_invocations s) \<longrightarrow>
        invoke toolCall timeout now s = Inl SandboxBusy
        \<and> step cfg s (Invoke toolCall timeout now) = s)
     \<and> length (filter (\<lambda>i. ti_sandbox i = b \<and> running i) (s_invocations s)) \<le> 1)"
proof -
  define s where "s = run cfg (createSession conversationRef userId) calls"
  have inv: "session_inv s"
    unfolding s_def by (rule inv_run) (rule inv_createSession)
  have busy: "invoke toolCall timeout now s = Inl SandboxBusy"
    if "list_ex running (s_invocations s)"
    using inv that by (auto simp: session_inv_def busy_sandbox_def invoke_def split: option.splits)
  have "length (filter (\<lambda>i. ti_sandbox i = b \<and> running i) (s_invocations s))
        \<le> length (filter running (s_invocations s))"
    by (rule length_filter_on_sandbox)
  also have "\<dots> \<le> 1"
    using inv by (simp add: session_inv_def)
  finally have one: "length (filter (\<lambda>i. ti_sandbox i = b \<and> running i) (s_invocations s)) \<le> 1" .
  from busy one show ?thesis
    unfolding s_def [symmetric] Let_def by simp
qed

text \<open>
  Claim C3. In every state a Session can reach, at most one of its agent-loop turns is in
  flight; and while one is, a further \<open>submitUserTurn\<close> fails with \<open>SessionBusy\<close> and
  leaves the Session as it was: the turn is not queued.
\<close>

theorem C3_second_turn_session_busy:
  "(let s = run cfg (createSession conversationRef userId) calls in
     (list_ex t_in_flight (s_turns s) \<longrightarrow>
        submitUserTurn message s = Inl SessionBusy
        \<and> step cfg s (SubmitUserTurn message) = s)
     \<and> length (filter t_in_flight (s_turns s)) \<le> 1)"
proof -
  define s where "s = run cfg (createSession conversationRef userId) calls"
  have "session_inv s"
    unfolding s_def by (rule inv_run) (rule inv_createSession)
  then have "length (filter t_in_flight (s_turns s)) \<le> 1"
    by (simp add: session_inv_def)
  moreover have "submitUserTurn message s = Inl SessionBusy" if "list_ex t_in_flight (s_turns s)"
    using that by (simp add: submitUserTurn_def)
  ultimately show ?thesis
    unfolding s_def [symmetric] Let_def by simp
qed

theorem C2_second_invoke_sandbox_busy_witness:
  "list_ex running (s_invocations (run \<lparr>cfg_ttl = 30, cfg_attempts = 3\<rparr> (createSession 1 2)
        [SubmitUserTurn ''list the files'',
         Acquire \<lparr>d_identifier = 8, d_container = 80, d_address = 800,
                  d_healthy = (\<lambda>k. k = 2)\<rparr> 100,
         Invoke \<lparr>c_kind = Terminal, c_payload = ''ls''\<rparr> 5 101]))
   \<and> invoke \<lparr>c_kind = Browser, c_payload = ''open''\<rparr> 5 102
       (run \<lparr>cfg_ttl = 30, cfg_attempts = 3\<rparr> (createSession 1 2)
        [SubmitUserTurn ''list the files'',
         Acquire \<lparr>d_identifier = 8, d_container = 80, d_address = 800,
                  d_healthy = (\<lambda>k. k = 2)\<rparr> 100,
         Invoke \<lparr>c_kind = Terminal, c_payload = ''ls''\<rparr> 5 101])
     = Inl SandboxBusy"
proof -
  have outstanding:
    "list_ex running (s_invocations (run \<lparr>cfg_ttl = 30, cfg_attempts = 3\<rparr> (createSession 1 2)
        [SubmitUserTurn ''list the files'',
         Acquire \<lparr>d_identifier = 8, d_container = 80, d_address = 800,
                  d_healthy = (\<lambda>k. k = 2)\<rparr> 100,
         Invoke \<lparr>c_kind = Terminal, c_payload = ''ls''\<rparr> 5 101]))"
    by (simp add: run_def createSession_def submitUserTurn_def acquire_def provision_def
        invoke_def running_def numeral_3_eq_3)
  with C2_second_invoke_sandbox_busy
      [of "\<lparr>cfg_ttl = 30, cfg_attempts = 3\<rparr>" 1 2
        "[SubmitUserTurn ''list the files'',
          Acquire \<lparr>d_identifier = 8, d_container = 80, d_address = 800,
                   d_healthy = (\<lambda>k. k = 2)\<rparr> 100,
          Invoke \<lparr>c_kind = Terminal, c_payload = ''ls''\<rparr> 5 101]"
        "\<lparr>c_kind = Browser, c_payload = ''open''\<rparr>" 5 102 8]
  show ?thesis
    by (simp add: Let_def)
qed

theorem C3_second_turn_session_busy_witness:
  "list_ex t_in_flight (s_turns (run \<lparr>cfg_ttl = 30, cfg_attempts = 3\<rparr> (createSession 1 2)
        [SubmitUserTurn ''list the files'']))
   \<and> submitUserTurn ''and delete them''
       (run \<lparr>cfg_ttl = 30, cfg_attempts = 3\<rparr> (createSession 1 2)
        [SubmitUserTurn ''list the files''])
     = Inl SessionBusy"
proof -
  have in_flight:
    "list_ex t_in_flight (s_turns (run \<lparr>cfg_ttl = 30, cfg_attempts = 3\<rparr> (createSession 1 2)
        [SubmitUserTurn ''list the files'']))"
    by (simp add: run_def createSession_def submitUserTurn_def)
  with C3_second_turn_session_busy
      [of "\<lparr>cfg_ttl = 30, cfg_attempts = 3\<rparr>" 1 2 "[SubmitUserTurn ''list the files'']"
        "''and delete them''"]
  show ?thesis
    by (simp add: Let_def)
qed

end
